theory Spec2Isabelle
  imports Main
begin

section \<open>Go library functions used by the middleware\<close>

text \<open>
  Go strings are byte sequences; they are modelled as \<^typ>\<open>string\<close> (a list of 8-bit
  characters). The functions of this section stand for the parts of Go's \<^verbatim>\<open>strings\<close>,
  \<^verbatim>\<open>fmt\<close> and \<^verbatim>\<open>net/http\<close> packages that \<^verbatim>\<open>cors.go\<close> calls.
\<close>

text \<open>
  \<^verbatim>\<open>strings.ToLower\<close>. When every byte of the string is below 128 the result is the
  string with the bytes \<^verbatim>\<open>'A'..'Z'\<close> replaced by \<^verbatim>\<open>'a'..'z'\<close>. Otherwise Go
  returns \<^verbatim>\<open>strings.Map(unicode.ToLower, s)\<close>, which decodes the string as UTF-8 and
  maps every code point through the Unicode tables of its library: it is the parameter
  \<open>mapLower\<close>.
\<close>

definition toLowerByte :: "char \<Rightarrow> char" where
  "toLowerByte c =
     (let n = (of_char c :: nat) in if 65 \<le> n \<and> n \<le> 90 then char_of (n + 32) else c)"

definition isASCII :: "string \<Rightarrow> bool" where
  "isASCII s = list_all (\<lambda>c. (of_char c :: nat) < 128) s"

definition ToLower :: "(string \<Rightarrow> string) \<Rightarrow> string \<Rightarrow> string" where
  "ToLower mapLower s = (if isASCII s then map toLowerByte s else mapLower s)"

text \<open>\<^verbatim>\<open>strings.Trim(s, cutset)\<close>: drop the leading and the trailing bytes that are in the cutset.\<close>

definition Trim :: "string \<Rightarrow> string \<Rightarrow> string" where
  "Trim s cutset =
     rev (dropWhile (\<lambda>c. c \<in> set cutset) (rev (dropWhile (\<lambda>c. c \<in> set cutset) s)))"

text \<open>
  \<^verbatim>\<open>strings.Split(s, sep)\<close> for a non-empty separator: scan from the left, cut at every
  occurrence of \<^verbatim>\<open>sep\<close> that does not overlap the previous one, and return the pieces
  in order; the empty string gives one empty piece. The middleware only ever splits on
  \<^verbatim>\<open>", "\<close> and \<^verbatim>\<open>","\<close>. Go cuts a string after every UTF-8 sequence when the
  separator is empty; that case is not modelled (the function below then returns the
  string as its only piece), and every property of \<open>Split\<close> below is about a separator
  that is not empty.
\<close>

fun consHead :: "char \<Rightarrow> string list \<Rightarrow> string list" where
  "consHead c [] = [[c]]"
| "consHead c (t # ts) = (c # t) # ts"

function Split :: "string \<Rightarrow> string \<Rightarrow> string list" where
  "Split [] sep = [[]]"
| "Split (c # cs) sep =
     (if sep \<noteq> [] \<and> take (length sep) (c # cs) = sep
      then [] # Split (drop (length sep) (c # cs)) sep
      else consHead c (Split cs sep))"
  by pat_completeness auto
termination
  by (relation "measure (\<lambda>(s, sep). length s)") auto

text \<open>\<^verbatim>\<open>fmt.Sprintf("%t", b)\<close>.\<close>

definition sprintf_t :: "bool \<Rightarrow> string" where
  "sprintf_t b = (if b then ''true'' else ''false'')"

text \<open>
  \<^verbatim>\<open>http.Header\<close> is a map from (canonical) header names to the list of their
  values. \<^verbatim>\<open>Get\<close> returns the first value of a name, or the empty string when there is
  none; \<^verbatim>\<open>Add\<close> appends a value; \<^verbatim>\<open>Set\<close> replaces the values by a single one. Every
  name the middleware uses is already in canonical form.
\<close>

type_synonym Header = "string \<rightharpoonup> string list"

definition Get :: "Header \<Rightarrow> string \<Rightarrow> string" where
  "Get h key = (case h key of None \<Rightarrow> [] | Some [] \<Rightarrow> [] | Some (v # vs) \<Rightarrow> v)"

definition Add :: "Header \<Rightarrow> string \<Rightarrow> string \<Rightarrow> Header" where
  "Add h key v = h(key \<mapsto> (case h key of None \<Rightarrow> [v] | Some vs \<Rightarrow> vs @ [v]))"

definition Set :: "Header \<Rightarrow> string \<Rightarrow> string \<Rightarrow> Header" where
  "Set h key v = h(key \<mapsto> [v])"

section \<open>The request context of the web framework\<close>

text \<open>
  The handler reads the request's method and headers, writes the response's headers, and
  ends by calling either \<^verbatim>\<open>c.Next()\<close> (run the following handlers of the chain) or
  \<^verbatim>\<open>c.Break()\<close> (stop the chain: no following handler runs). The context records
  which of the two was called last.
\<close>

datatype chain = Pending | Continued | Terminated

record Request =
  Method :: string
  Header :: Header

record Context =
  Req :: Request
  Resp :: Header
  chain :: chain

definition Next :: "Context \<Rightarrow> Context" where
  "Next c = c\<lparr>chain := Continued\<rparr>"

definition Break :: "Context \<Rightarrow> Context" where
  "Break c = c\<lparr>chain := Terminated\<rparr>"

section \<open>cors.go\<close>

definition AllowOriginKey :: string where "AllowOriginKey = ''Access-Control-Allow-Origin''"
definition AllowCredentialsKey :: string where "AllowCredentialsKey = ''Access-Control-Allow-Credentials''"
definition AllowHeadersKey :: string where "AllowHeadersKey = ''Access-Control-Allow-Headers''"
definition AllowMethodsKey :: string where "AllowMethodsKey = ''Access-Control-Allow-Methods''"
definition MaxAgeKey :: string where "MaxAgeKey = ''Access-Control-Max-Age''"
definition OriginKey :: string where "OriginKey = ''Origin''"
definition RequestMethodKey :: string where "RequestMethodKey = ''Access-Control-Request-Method''"
definition RequestHeadersKey :: string where "RequestHeadersKey = ''Access-Control-Request-Headers''"
definition ExposeHeadersKey :: string where "ExposeHeadersKey = ''Access-Control-Expose-Headers''"
definition optionsMethod :: string where "optionsMethod = ''OPTIONS''"

text \<open>
  \<^verbatim>\<open>Config\<close>: the public fields and the private ones that \<^verbatim>\<open>prepare\<close> fills in.
  \<^verbatim>\<open>MaxAge\<close> is a \<^verbatim>\<open>time.Duration\<close>, a number of nanoseconds.
\<close>

record Config =
  ValidateHeaders :: bool
  Origins :: string
  origins :: "string list"
  RequestHeaders :: string
  requestHeaders :: "string list"
  ExposedHeaders :: string
  Methods :: string
  methods :: "string list"
  MaxAge :: int
  maxAge :: string
  Credentials :: bool
  credentials :: string

text \<open>
  \<^verbatim>\<open>prepare\<close>. The parameter \<open>sprintf_f\<close> stands for
  \<^verbatim>\<open>fmt.Sprintf("%.f", d.Seconds())\<close>, the floating-point rendering of a duration in
  seconds, which belongs to Go's library; \<open>mapLower\<close> is the parameter of
  \<open>ToLower\<close>.
\<close>

definition prepare :: "(int \<Rightarrow> string) \<Rightarrow> (string \<Rightarrow> string) \<Rightarrow> Config \<Rightarrow> Config" where
  "prepare sprintf_f mapLower config =
     config\<lparr>origins := Split (Origins config) '', '',
            methods := Split (Methods config) '', '',
            requestHeaders := map (ToLower mapLower) (Split (RequestHeaders config) '', ''),
            maxAge := sprintf_f (MaxAge config),
            credentials := sprintf_t (Credentials config)\<rparr>"

text \<open>\<^verbatim>\<open>matchOrigin\<close>: the loop over \<^verbatim>\<open>config.origins\<close>.\<close>

primrec matchOrigin_loop :: "string \<Rightarrow> string list \<Rightarrow> bool" where
  "matchOrigin_loop origin [] = False"
| "matchOrigin_loop origin (v # vs) = (if v = origin then True else matchOrigin_loop origin vs)"

definition matchOrigin :: "string \<Rightarrow> Config \<Rightarrow> bool" where
  "matchOrigin origin config = matchOrigin_loop origin (origins config)"

text \<open>\<^verbatim>\<open>validateRequestMethod\<close>.\<close>

primrec validateRequestMethod_loop :: "string \<Rightarrow> string list \<Rightarrow> bool" where
  "validateRequestMethod_loop requestMethod [] = False"
| "validateRequestMethod_loop requestMethod (v # vs) =
     (if v = requestMethod then True else validateRequestMethod_loop requestMethod vs)"

definition validateRequestMethod :: "string \<Rightarrow> Config \<Rightarrow> bool" where
  "validateRequestMethod requestMethod config =
     (if \<not> ValidateHeaders config then True
      else if requestMethod \<noteq> [] then validateRequestMethod_loop requestMethod (methods config)
      else False)"

text \<open>
  \<^verbatim>\<open>validateRequestHeaders\<close>: the inner loop looks the normalised header up in
  \<^verbatim>\<open>config.requestHeaders\<close>, the outer loop stops at the first header without a match.
\<close>

primrec header_match :: "string \<Rightarrow> string list \<Rightarrow> bool" where
  "header_match header [] = False"
| "header_match header (v # vs) = (if v = header then True else header_match header vs)"

primrec validateRequestHeaders_loop :: "(string \<Rightarrow> string) \<Rightarrow> string list \<Rightarrow> Config \<Rightarrow> bool" where
  "validateRequestHeaders_loop mapLower [] config = True"
| "validateRequestHeaders_loop mapLower (h # hs) config =
     (let header = ToLower mapLower (Trim h [CHR '' '', CHR 0x09, CHR 0x0D, CHR 0x0A])
      in if \<not> header_match header (requestHeaders config) then False
         else validateRequestHeaders_loop mapLower hs config)"

definition validateRequestHeaders :: "(string \<Rightarrow> string) \<Rightarrow> string \<Rightarrow> Config \<Rightarrow> bool" where
  "validateRequestHeaders mapLower reqHeaders config =
     (if \<not> ValidateHeaders config then True
      else validateRequestHeaders_loop mapLower (Split reqHeaders '','') config)"

text \<open>\<^verbatim>\<open>handlePreflight\<close> returns the context with the headers it has set, and its verdict.\<close>

definition handlePreflight :: "(string \<Rightarrow> string) \<Rightarrow> Context \<Rightarrow> Config \<Rightarrow> string \<Rightarrow> Context \<times> bool" where
  "handlePreflight mapLower c config requestMethod =
     (if validateRequestMethod requestMethod config = False then (c, False)
      else if validateRequestHeaders mapLower (Get (Header (Req c)) RequestHeadersKey) config = True then
        (let c1 = c\<lparr>Resp := Set (Resp c) AllowMethodsKey (Methods config)\<rparr>;
             c2 = c1\<lparr>Resp := Set (Resp c1) AllowHeadersKey (RequestHeaders config)\<rparr>;
             c3 = (if maxAge config \<noteq> ''0''
                   then c2\<lparr>Resp := Set (Resp c2) MaxAgeKey (maxAge config)\<rparr> else c2)
         in (c3, True))
      else (c, False))"

definition handleRequest :: "Context \<Rightarrow> Config \<Rightarrow> Context \<times> bool" where
  "handleRequest c config =
     ((if ExposedHeaders config \<noteq> []
       then c\<lparr>Resp := Set (Resp c) ExposeHeadersKey (ExposedHeaders config)\<rparr> else c), True)"

text \<open>
  The middleware function that \<^verbatim>\<open>Cors\<close> returns: a closure over
  \<^verbatim>\<open>forceOriginMatch\<close> and the prepared \<^verbatim>\<open>config\<close>.
\<close>

definition handler :: "(string \<Rightarrow> string) \<Rightarrow> bool \<Rightarrow> Config \<Rightarrow> Context \<Rightarrow> Context" where
  "handler mapLower forceOriginMatch config c0 =
     (let currentOrigin = Get (Header (Req c0)) OriginKey;
          c = c0\<lparr>Resp := Add (Resp c0) ''Vary'' OriginKey\<rparr>
      in if currentOrigin = [] then Next c
         else
           let originMatch = (if \<not> forceOriginMatch then matchOrigin currentOrigin config else False)
           in if \<not> (forceOriginMatch \<or> originMatch) then Break c
              else
                let (preflight, c1) =
                      (if Method (Req c) = optionsMethod then
                         (let requestMethod = Get (Header (Req c)) RequestMethodKey
                          in if requestMethod \<noteq> []
                             then (True, fst (handlePreflight mapLower c config requestMethod))
                             else (False, c))
                       else (False, c))
                in if preflight then Break c1
                   else
                     let (c2, valid) = handleRequest c1 config
                     in if \<not> valid then Break c2
                        else if Credentials config then
                          (let c3 = c2\<lparr>Resp := Set (Resp c2) AllowCredentialsKey (credentials config)\<rparr>
                           in Next (c3\<lparr>Resp := Set (Resp c3) AllowOriginKey currentOrigin\<rparr>))
                        else if forceOriginMatch then
                          Next (c2\<lparr>Resp := Set (Resp c2) AllowOriginKey ''*''\<rparr>)
                        else Next (c2\<lparr>Resp := Set (Resp c2) AllowOriginKey currentOrigin\<rparr>))"

text \<open>\<^verbatim>\<open>Cors\<close>: the panic is the error value, the closure is the result.\<close>

datatype error = Panic string

definition Cors :: "(int \<Rightarrow> string) \<Rightarrow> (string \<Rightarrow> string) \<Rightarrow> Config \<Rightarrow> error + (Context \<Rightarrow> Context)" where
  "Cors sprintf_f mapLower config =
     (if Origins config = []
      then Inl (Panic ''You must set at least a single valid origin. If you don't want CORS, to apply, simply remove the middleware.'')
      else Inr (handler mapLower (Origins config = ''*'') (prepare sprintf_f mapLower config)))"

section \<open>Notions used to state the properties\<close>

text \<open>\<^verbatim>\<open>strings.Join\<close>, the inverse of \<^verbatim>\<open>strings.Split\<close>: the pieces with the separator between them.\<close>

fun Join :: "string list \<Rightarrow> string \<Rightarrow> string" where
  "Join [] sep = []"
| "Join [t] sep = t"
| "Join (t # u # ts) sep = t @ sep @ Join (u # ts) sep"

text \<open>
  A rendering of the maximal age that gives a fixed string: in an example it is given the
  string that Go renders for the \<^verbatim>\<open>MaxAge\<close> of that example (\<^verbatim>\<open>"0"\<close> for a
  zero duration, \<^verbatim>\<open>"60"\<close> for one minute).
\<close>

definition renders :: "string \<Rightarrow> int \<Rightarrow> string" where
  "renders s d = s"

text \<open>
  The strings of the examples hold ASCII bytes only, so lowercasing them never reaches
  \<^verbatim>\<open>strings.Map(unicode.ToLower, s)\<close>; the examples pass a mapping that leaves its
  string alone.
\<close>

definition unmapped :: "string \<Rightarrow> string" where
  "unmapped s = s"

text \<open>
  Example configurations (the private fields hold Go's zero values before \<^verbatim>\<open>prepare\<close>)
  and example requests, each with an empty response header map.
\<close>

definition config_a :: Config where
  "config_a = \<lparr>ValidateHeaders = True, Origins = ''https://a.com'', origins = [],
     RequestHeaders = ''content-type'', requestHeaders = [], ExposedHeaders = [],
     Methods = ''GET, POST'', methods = [], MaxAge = 0, maxAge = [],
     Credentials = True, credentials = []\<rparr>"

definition config_star :: Config where
  "config_star = \<lparr>ValidateHeaders = False, Origins = ''*'', origins = [],
     RequestHeaders = ''Origin, Authorization, Content-Type'', requestHeaders = [],
     ExposedHeaders = [], Methods = ''GET, PUT, POST, DELETE'', methods = [],
     MaxAge = 60000000000, maxAge = [], Credentials = False, credentials = []\<rparr>"

definition request :: "string \<Rightarrow> Header \<Rightarrow> Context" where
  "request m h = \<lparr>Req = \<lparr>Method = m, Header = h\<rparr>, Resp = Map.empty, chain = Pending\<rparr>"

text \<open>The request without any header, to build the example requests from.\<close>

definition noHeaders :: Header where
  "noHeaders = Map.empty"

text \<open>
  What the handler reads from a request: the \<^verbatim>\<open>Origin\<close> header, the probed method and
  the probed headers (each the empty string when the header is absent), and whether the
  request is a preflight: an \<^verbatim>\<open>OPTIONS\<close> request that probes a method.
\<close>

abbreviation currentOrigin :: "Context \<Rightarrow> string" where
  "currentOrigin c \<equiv> Get (Header (Req c)) OriginKey"

abbreviation requestedMethod :: "Context \<Rightarrow> string" where
  "requestedMethod c \<equiv> Get (Header (Req c)) RequestMethodKey"

abbreviation requestedHeaders :: "Context \<Rightarrow> string" where
  "requestedHeaders c \<equiv> Get (Header (Req c)) RequestHeadersKey"

abbreviation isPreflight :: "Context \<Rightarrow> bool" where
  "isPreflight c \<equiv> Method (Req c) = optionsMethod \<and> requestedMethod c \<noteq> []"

text \<open>
  A request is rejected when the chain is stopped and the response carries no header
  beyond \<^verbatim>\<open>Vary: Origin\<close>.
\<close>

abbreviation rejected :: "Context \<Rightarrow> Context \<Rightarrow> bool" where
  "rejected c c' \<equiv> chain c' = Terminated \<and> Resp c' = Add (Resp c) ''Vary'' OriginKey"

section \<open>Properties of the library functions and of the loops\<close>

lemma Split_not_Nil: "Split s sep \<noteq> []"
  by (induction s sep rule: Split.induct) (auto split: list.splits elim: consHead.elims)

lemma Join_consHead: "tss \<noteq> [] \<Longrightarrow> Join (consHead c tss) sep = c # Join tss sep"
proof (cases tss)
  case Nil
  then show ?thesis by simp
next
  case (Cons t ts)
  then show ?thesis by (cases ts) simp_all
qed

lemma Join_Split: "sep \<noteq> [] \<Longrightarrow> Join (Split s sep) sep = s"
proof (induction s sep rule: Split.induct)
  case (1 sep)
  then show ?case by simp
next
  case (2 c cs sep)
  show ?case
  proof (cases "take (length sep) (c # cs) = sep")
    case True
    obtain u us where sp: "Split (drop (length sep) (c # cs)) sep = u # us"
      using Split_not_Nil by (cases "Split (drop (length sep) (c # cs)) sep") auto
    have "Join (Split (c # cs) sep) sep = sep @ Join (Split (drop (length sep) (c # cs)) sep) sep"
      using True 2(3) sp by simp
    also have "\<dots> = sep @ drop (length sep) (c # cs)"
      using 2(1) 2(3) True by simp
    also have "\<dots> = take (length sep) (c # cs) @ drop (length sep) (c # cs)"
      using True by simp
    finally show ?thesis by simp
  next
    case False
    then show ?thesis using 2(2) 2(3) Split_not_Nil by (simp add: Join_consHead)
  qed
qed

lemma Split_hd_prefix: "\<exists>r. s = hd (Split s sep) @ r"
proof (induction s sep rule: Split.induct)
  case (1 sep)
  then show ?case by simp
next
  case (2 c cs sep)
  show ?case
  proof (cases "sep \<noteq> [] \<and> take (length sep) (c # cs) = sep")
    case True
    then show ?thesis by simp
  next
    case False
    obtain u us where sp: "Split cs sep = u # us"
      using Split_not_Nil by (cases "Split cs sep") auto
    from 2(2) False sp obtain r where "cs = u @ r" by auto
    then show ?thesis using False sp by auto
  qed
qed

lemma Split_token_free:
  "sep \<noteq> [] \<Longrightarrow> t \<in> set (Split s sep) \<Longrightarrow> t \<noteq> a @ sep @ b"
proof (induction s sep arbitrary: t a b rule: Split.induct)
  case (1 sep)
  then show ?case by simp
next
  case (2 c cs sep)
  show ?case
  proof (cases "take (length sep) (c # cs) = sep")
    case True
    then have "t = [] \<or> t \<in> set (Split (drop (length sep) (c # cs)) sep)"
      using 2(3,4) by simp
    then show ?thesis
    proof
      assume "t = []" then show ?thesis using 2(3) by simp
    next
      assume "t \<in> set (Split (drop (length sep) (c # cs)) sep)"
      then show ?thesis using 2(1) 2(3) True by blast
    qed
  next
    case False
    obtain u us where sp: "Split cs sep = u # us"
      using Split_not_Nil by (cases "Split cs sep") auto
    then have tcase: "t = c # u \<or> t \<in> set us" using 2(4) False by simp
    have ih: "\<And>t a b. t \<in> set (Split cs sep) \<Longrightarrow> t \<noteq> a @ sep @ b"
      using 2(2) 2(3) False by blast
    show ?thesis
    proof (cases "t = c # u")
      case tu: True
      show ?thesis
      proof
        assume eq: "t = a @ sep @ b"
        show False
        proof (cases a)
          case Nil
          obtain r where r: "cs = u @ r" using Split_hd_prefix[of cs sep] sp by auto
          have "c # cs = sep @ b @ r" using eq tu Nil r by simp
          then have "take (length sep) (c # cs) = sep" by simp
          then show False using False by simp
        next
          case (Cons x a')
          then have "u = a' @ sep @ b" using eq tu by simp
          moreover have "u \<in> set (Split cs sep)" using sp by simp
          ultimately show False using ih by blast
        qed
      qed
    next
      case False
      then have "t \<in> set (Split cs sep)" using tcase sp by simp
      then show ?thesis using ih by blast
    qed
  qed
qed

lemma validateRequestMethod_loop_set:
  "validateRequestMethod_loop requestMethod vs \<longleftrightarrow> requestMethod \<in> set vs"
  by (induction vs) auto

lemma header_match_set: "header_match header vs \<longleftrightarrow> header \<in> set vs"
  by (induction vs) auto

lemma validateRequestHeaders_loop_all:
  "validateRequestHeaders_loop mapLower hs config \<longleftrightarrow>
     (\<forall>h \<in> set hs. ToLower mapLower (Trim h [CHR '' '', CHR 0x09, CHR 0x0D, CHR 0x0A]) \<in> set (requestHeaders config))"
  by (induction hs) (auto simp: header_match_set Let_def)

lemma prepare_fields:
  "origins (prepare f mapLower config) = Split (Origins config) '', ''"
  "methods (prepare f mapLower config) = Split (Methods config) '', ''"
  "requestHeaders (prepare f mapLower config) = map (ToLower mapLower) (Split (RequestHeaders config) '', '')"
  "maxAge (prepare f mapLower config) = f (MaxAge config)"
  "credentials (prepare f mapLower config) = sprintf_t (Credentials config)"
  "ValidateHeaders (prepare f mapLower config) = ValidateHeaders config"
  "Origins (prepare f mapLower config) = Origins config"
  "Methods (prepare f mapLower config) = Methods config"
  "RequestHeaders (prepare f mapLower config) = RequestHeaders config"
  "ExposedHeaders (prepare f mapLower config) = ExposedHeaders config"
  "Credentials (prepare f mapLower config) = Credentials config"
  "MaxAge (prepare f mapLower config) = MaxAge config"
  by (simp_all add: prepare_def)

lemma ToLower_ASCII: "isASCII s \<Longrightarrow> ToLower mapLower s = map toLowerByte s"
  by (simp add: ToLower_def)

lemma ToLower_Nil: "ToLower mapLower [] = []"
  by (simp add: ToLower_def isASCII_def)

section \<open>The four ways through the handler\<close>

lemma matchOrigin_loop_set: "matchOrigin_loop origin vs \<longleftrightarrow> origin \<in> set vs"
  by (induction vs) auto

lemma handler_no_origin:
  "Get (Header (Req c)) OriginKey = [] \<Longrightarrow>
   handler mapLower f cfg c = c\<lparr>Resp := Add (Resp c) ''Vary'' OriginKey, chain := Continued\<rparr>"
  by (simp add: handler_def Next_def)

lemma handler_denied:
  "Get (Header (Req c)) OriginKey \<noteq> [] \<Longrightarrow> \<not> f \<Longrightarrow>
   Get (Header (Req c)) OriginKey \<notin> set (origins cfg) \<Longrightarrow>
   handler mapLower f cfg c = c\<lparr>Resp := Add (Resp c) ''Vary'' OriginKey, chain := Terminated\<rparr>"
  by (simp add: handler_def Break_def matchOrigin_def matchOrigin_loop_set)

lemma handler_preflight:
  "Get (Header (Req c)) OriginKey \<noteq> [] \<Longrightarrow>
   f \<or> Get (Header (Req c)) OriginKey \<in> set (origins cfg) \<Longrightarrow>
   Method (Req c) = optionsMethod \<Longrightarrow> Get (Header (Req c)) RequestMethodKey \<noteq> [] \<Longrightarrow>
   handler mapLower f cfg c =
     Break (fst (handlePreflight mapLower (c\<lparr>Resp := Add (Resp c) ''Vary'' OriginKey\<rparr>) cfg
                   (Get (Header (Req c)) RequestMethodKey)))"
  by (auto simp add: handler_def Let_def matchOrigin_def matchOrigin_loop_set)

lemma handler_actual:
  "Get (Header (Req c)) OriginKey \<noteq> [] \<Longrightarrow>
   f \<or> Get (Header (Req c)) OriginKey \<in> set (origins cfg) \<Longrightarrow>
   \<not> (Method (Req c) = optionsMethod \<and> Get (Header (Req c)) RequestMethodKey \<noteq> []) \<Longrightarrow>
   handler mapLower f cfg c =
     (let h1 = Add (Resp c) ''Vary'' OriginKey;
          h2 = (if ExposedHeaders cfg \<noteq> [] then Set h1 ExposeHeadersKey (ExposedHeaders cfg) else h1);
          h3 = (if Credentials cfg
                then Set (Set h2 AllowCredentialsKey (credentials cfg)) AllowOriginKey
                       (Get (Header (Req c)) OriginKey)
                else if f then Set h2 AllowOriginKey ''*''
                else Set h2 AllowOriginKey (Get (Header (Req c)) OriginKey))
      in c\<lparr>Resp := h3, chain := Continued\<rparr>)"
  by (auto simp add: handler_def Let_def matchOrigin_def matchOrigin_loop_set handleRequest_def Next_def)

lemma handlePreflight_Resp:
  "Resp (fst (handlePreflight mapLower c cfg rm)) =
     (if validateRequestMethod rm cfg \<and> validateRequestHeaders mapLower (Get (Header (Req c)) RequestHeadersKey) cfg
      then (let h2 = Set (Set (Resp c) AllowMethodsKey (Methods cfg)) AllowHeadersKey (RequestHeaders cfg)
            in if maxAge cfg \<noteq> ''0'' then Set h2 MaxAgeKey (maxAge cfg) else h2)
      else Resp c)"
  by (simp add: handlePreflight_def Let_def)

section \<open>The example configurations and requests, evaluated\<close>

lemma eval_config_a:
  "Origins config_a = ''https://a.com''" "Methods config_a = ''GET, POST''"
  "RequestHeaders config_a = ''content-type''" "ValidateHeaders config_a"
  "Credentials config_a" "MaxAge config_a = 0" "ExposedHeaders config_a = []"
  by (simp_all add: config_a_def)

lemma eval_config_star:
  "Origins config_star = ''*''" "Methods config_star = ''GET, PUT, POST, DELETE''"
  "RequestHeaders config_star = ''Origin, Authorization, Content-Type''"
  "\<not> ValidateHeaders config_star" "\<not> Credentials config_star"
  "MaxAge config_star = 60000000000" "ExposedHeaders config_star = []"
  by (simp_all add: config_star_def)

lemma Cors_config_a:
  "Cors (renders ''0'') unmapped config_a = Inr (handler unmapped False (prepare (renders ''0'') unmapped config_a))"
  by (simp add: Cors_def eval_config_a)

lemma Cors_config_star:
  "Cors (renders ''60'') unmapped config_star = Inr (handler unmapped True (prepare (renders ''60'') unmapped config_star))"
  by (simp add: Cors_def eval_config_star)

lemma Split_origin_a: "Split ''https://a.com'' '', '' = [''https://a.com'']"
  by code_simp

lemma Split_methods_a: "Split ''GET, POST'' '', '' = [''GET'', ''POST'']"
  by code_simp

lemma Split_headers_a: "Split ''content-type'' '', '' = [''content-type'']"
  by code_simp

lemma eval_request:
  "Method (Req (request m h)) = m" "Header (Req (request m h)) = h"
  "Resp (request m h) = Map.empty" "chain (request m h) = Pending"
  by (simp_all add: request_def)

lemma eval_get_a:
  "currentOrigin (request ''GET'' (noHeaders(''Origin'' \<mapsto> [''https://a.com'']))) = ''https://a.com''"
  "requestedMethod (request ''GET'' (noHeaders(''Origin'' \<mapsto> [''https://a.com'']))) = []"
  by (simp_all add: eval_request noHeaders_def Get_def OriginKey_def RequestMethodKey_def)

lemma eval_get_b:
  "currentOrigin (request ''GET'' (noHeaders(''Origin'' \<mapsto> [''https://b.com'']))) = ''https://b.com''"
  "requestedMethod (request ''GET'' (noHeaders(''Origin'' \<mapsto> [''https://b.com'']))) = []"
  by (simp_all add: eval_request noHeaders_def Get_def OriginKey_def RequestMethodKey_def)

lemma eval_options_delete:
  "currentOrigin (request ''OPTIONS'' (noHeaders(''Origin'' \<mapsto> [''https://a.com''],
      ''Access-Control-Request-Method'' \<mapsto> [''DELETE'']))) = ''https://a.com''"
  "requestedMethod (request ''OPTIONS'' (noHeaders(''Origin'' \<mapsto> [''https://a.com''],
      ''Access-Control-Request-Method'' \<mapsto> [''DELETE'']))) = ''DELETE''"
  "requestedHeaders (request ''OPTIONS'' (noHeaders(''Origin'' \<mapsto> [''https://a.com''],
      ''Access-Control-Request-Method'' \<mapsto> [''DELETE'']))) = []"
  by (simp_all add: eval_request noHeaders_def Get_def OriginKey_def RequestMethodKey_def
      RequestHeadersKey_def)

lemma eval_options_post:
  "currentOrigin (request ''OPTIONS'' (noHeaders(''Origin'' \<mapsto> [''https://a.com''],
      ''Access-Control-Request-Method'' \<mapsto> [''POST'']))) = ''https://a.com''"
  "requestedMethod (request ''OPTIONS'' (noHeaders(''Origin'' \<mapsto> [''https://a.com''],
      ''Access-Control-Request-Method'' \<mapsto> [''POST'']))) = ''POST''"
  "requestedHeaders (request ''OPTIONS'' (noHeaders(''Origin'' \<mapsto> [''https://a.com''],
      ''Access-Control-Request-Method'' \<mapsto> [''POST'']))) = []"
  by (simp_all add: eval_request noHeaders_def Get_def OriginKey_def RequestMethodKey_def
      RequestHeadersKey_def)

lemma eval_options_bare:
  "currentOrigin (request ''OPTIONS'' (noHeaders(''Origin'' \<mapsto> [''https://a.com'']))) = ''https://a.com''"
  "requestedMethod (request ''OPTIONS'' (noHeaders(''Origin'' \<mapsto> [''https://a.com'']))) = []"
  by (simp_all add: eval_request noHeaders_def Get_def OriginKey_def RequestMethodKey_def)

lemma eval_prepare_a:
  "validateRequestMethod ''DELETE'' (prepare (renders ''0'') unmapped config_a) = False"
  "validateRequestMethod ''POST'' (prepare (renders ''0'') unmapped config_a) = True"
  by (simp_all add: validateRequestMethod_def validateRequestMethod_loop_set prepare_fields
      eval_config_a Split_methods_a)

lemma ToLower_content_type: "ToLower unmapped ''content-type'' = ''content-type''"
  by code_simp



section \<open>Construction, normalisation and validation\<close>

text \<open>
  Claim C9. Building the middleware panics exactly when the configured origin rule
  \<^verbatim>\<open>Origins\<close> is the empty string; for every other origin rule \<^verbatim>\<open>Cors\<close> returns a
  handler. The panic is raised before \<^verbatim>\<open>prepare\<close> runs and before a handler exists.
\<close>

theorem Cors_panics_iff_empty_origins:
  "((\<exists>e. Cors sprintf_f mapLower config = Inl e) \<longleftrightarrow> Origins config = [])
   \<and> ((\<exists>h. Cors sprintf_f mapLower config = Inr h) \<longleftrightarrow> Origins config \<noteq> [])"
  by (simp add: Cors_def)

theorem Cors_panics_iff_empty_origins_witness:
  "(\<exists>h. Cors (renders ''0'') unmapped config_a = Inr h)
   \<and> (\<exists>e. Cors (renders ''0'') unmapped (config_a\<lparr>Origins := []\<rparr>) = Inl e)"
  using Cors_panics_iff_empty_origins
      [where sprintf_f = "renders ''0''" and mapLower = unmapped and config = config_a]
    Cors_panics_iff_empty_origins
      [where sprintf_f = "renders ''0''" and mapLower = unmapped
         and config = "config_a\<lparr>Origins := []\<rparr>"]
  by (simp add: config_a_def)

text \<open>
  Claim C5. Validation of the probed method of a preflight. The probed method of a
  preflight is never empty (the handler calls \<^verbatim>\<open>handlePreflight\<close> only with a non-empty
  \<^verbatim>\<open>Access-Control-Request-Method\<close>). With \<^verbatim>\<open>ValidateHeaders\<close> set, such a method
  passes exactly when it is equal, byte for byte, to an entry of the configured methods,
  so that \<^verbatim>\<open>get\<close> fails against the configured \<^verbatim>\<open>GET\<close>; without
  \<^verbatim>\<open>ValidateHeaders\<close> every method passes. The last conjunct is the function on every
  input, the empty method included: in strict mode the empty method never passes.
\<close>

theorem validateRequestMethod_strict_iff:
  "(ValidateHeaders config \<longrightarrow> requestMethod \<noteq> [] \<longrightarrow>
      (validateRequestMethod requestMethod config \<longleftrightarrow> requestMethod \<in> set (methods config)))
   \<and> (\<not> ValidateHeaders config \<longrightarrow> validateRequestMethod requestMethod config)
   \<and> (ValidateHeaders config \<longrightarrow> Methods config = ''GET'' \<longrightarrow>
        \<not> validateRequestMethod ''get'' (prepare sprintf_f mapLower config))
   \<and> (validateRequestMethod requestMethod config \<longleftrightarrow>
        (\<not> ValidateHeaders config \<or> (requestMethod \<noteq> [] \<and> requestMethod \<in> set (methods config))))"
  by (simp add: validateRequestMethod_def validateRequestMethod_loop_set prepare_fields)

theorem validateRequestMethod_strict_iff_witness:
  "validateRequestMethod ''POST'' (prepare (renders ''0'') unmapped config_a)
   \<and> \<not> validateRequestMethod ''post'' (prepare (renders ''0'') unmapped config_a)
   \<and> \<not> validateRequestMethod ''get'' (prepare (renders ''0'') unmapped (config_a\<lparr>Methods := ''GET''\<rparr>))
   \<and> validateRequestMethod ''post'' (prepare (renders ''60'') unmapped config_star)"
  using validateRequestMethod_strict_iff
      [where config = "prepare (renders ''0'') unmapped config_a" and requestMethod = "''POST''"
         and sprintf_f = "renders ''0''" and mapLower = unmapped]
    validateRequestMethod_strict_iff
      [where config = "prepare (renders ''0'') unmapped config_a" and requestMethod = "''post''"
         and sprintf_f = "renders ''0''" and mapLower = unmapped]
    validateRequestMethod_strict_iff
      [where config = "config_a\<lparr>Methods := ''GET''\<rparr>" and requestMethod = "''get''"
         and sprintf_f = "renders ''0''" and mapLower = unmapped]
    validateRequestMethod_strict_iff
      [where config = "prepare (renders ''60'') unmapped config_star" and requestMethod = "''post''"
         and sprintf_f = "renders ''60''" and mapLower = unmapped]
  by (simp add: prepare_fields config_a_def config_star_def)

text \<open>
  Claim C6. Validation of the probed headers of a preflight, against the prepared
  configuration. With \<^verbatim>\<open>ValidateHeaders\<close> set, the raw value is split on commas, and
  the validation passes exactly when every piece, trimmed of blanks, tabs, carriage
  returns and line feeds and then lowercased, is one of the lowercased configured request
  headers: the match ignores case, and \<^verbatim>\<open>Content-Type\<close> passes against the configured
  \<^verbatim>\<open>content-type\<close>. Without \<^verbatim>\<open>ValidateHeaders\<close> the validation always passes.
  Lowercasing is \<^verbatim>\<open>strings.ToLower\<close> on both sides, whatever the Unicode mapping
  \<open>mapLower\<close> of the library does to a string with bytes above 127.
\<close>

theorem validateRequestHeaders_iff:
  "(validateRequestHeaders mapLower reqHeaders (prepare sprintf_f mapLower config) \<longleftrightarrow>
      (\<not> ValidateHeaders config \<or>
       (\<forall>h \<in> set (Split reqHeaders '','').
          ToLower mapLower (Trim h [CHR '' '', CHR 0x09, CHR 0x0D, CHR 0x0A])
            \<in> set (map (ToLower mapLower) (Split (RequestHeaders config) '', '')))))
   \<and> (RequestHeaders config = ''content-type'' \<longrightarrow>
        validateRequestHeaders mapLower ''Content-Type'' (prepare sprintf_f mapLower config))"
proof -
  have ex: "ToLower mapLower (Trim ''Content-Type'' [CHR '' '', CHR 0x09, CHR 0x0D, CHR 0x0A]) = ''content-type''"
    by code_simp
  have ex2: "ToLower mapLower ''content-type'' = ''content-type''"
    by code_simp
  show ?thesis
    by (simp add: validateRequestHeaders_def validateRequestHeaders_loop_all ex ex2 prepare_fields)
qed

theorem validateRequestHeaders_iff_witness:
  "validateRequestHeaders unmapped ''Content-Type'' (prepare (renders ''0'') unmapped config_a)
   \<and> validateRequestHeaders unmapped '' CONTENT-TYPE ,content-type'' (prepare (renders ''0'') unmapped config_a)
   \<and> \<not> validateRequestHeaders unmapped ''Content-Type, X-Token'' (prepare (renders ''0'') unmapped config_a)
   \<and> validateRequestHeaders unmapped ''X-Token'' (prepare (renders ''60'') unmapped config_star)"
proof -
  have s1: "Split '' CONTENT-TYPE ,content-type'' '','' = ['' CONTENT-TYPE '', ''content-type'']"
    by code_simp
  have s2: "Split ''Content-Type, X-Token'' '','' = [''Content-Type'', '' X-Token'']"
    by code_simp
  have s3: "Split ''content-type'' '', '' = [''content-type'']"
    by code_simp
  have t1: "ToLower unmapped (Trim '' CONTENT-TYPE '' [CHR '' '', CHR 0x09, CHR 0x0D, CHR 0x0A]) = ''content-type''"
    by code_simp
  have t2: "ToLower unmapped (Trim ''content-type'' [CHR '' '', CHR 0x09, CHR 0x0D, CHR 0x0A]) = ''content-type''"
    by code_simp
  have t3: "ToLower unmapped (Trim ''Content-Type'' [CHR '' '', CHR 0x09, CHR 0x0D, CHR 0x0A]) = ''content-type''"
    by code_simp
  have t4: "ToLower unmapped (Trim '' X-Token'' [CHR '' '', CHR 0x09, CHR 0x0D, CHR 0x0A]) = ''x-token''"
    by code_simp
  have t5: "ToLower unmapped ''content-type'' = ''content-type''"
    by code_simp
  have c1: "RequestHeaders config_a = ''content-type''" "ValidateHeaders config_a"
    "\<not> ValidateHeaders config_star"
    by (simp_all add: config_a_def config_star_def)
  show ?thesis
    using validateRequestHeaders_iff
        [where reqHeaders = "''Content-Type''" and sprintf_f = "renders ''0''"
           and mapLower = unmapped and config = config_a]
      validateRequestHeaders_iff
        [where reqHeaders = "'' CONTENT-TYPE ,content-type''" and sprintf_f = "renders ''0''"
           and mapLower = unmapped and config = config_a]
      validateRequestHeaders_iff
        [where reqHeaders = "''Content-Type, X-Token''" and sprintf_f = "renders ''0''"
           and mapLower = unmapped and config = config_a]
      validateRequestHeaders_iff
        [where reqHeaders = "''X-Token''" and sprintf_f = "renders ''60''"
           and mapLower = unmapped and config = config_star]
    by (simp add: c1 s1 s2 s3 t1 t2 t3 t4 t5)
qed

text \<open>
  Claim C8, as amended. \<^verbatim>\<open>prepare\<close> splits the origins, methods and request-headers
  strings on the separator \<^verbatim>\<open>", "\<close> into sequences of tokens in the configured
  order, each request-header token then lowercased: joining the pieces of each string
  with \<^verbatim>\<open>", "\<close> gives the configured string back, and no piece contains the
  separator. The tokens are not trimmed.
\<close>

theorem prepare_splits_untrimmed:
  "origins (prepare sprintf_f mapLower config) = Split (Origins config) '', ''
   \<and> methods (prepare sprintf_f mapLower config) = Split (Methods config) '', ''
   \<and> requestHeaders (prepare sprintf_f mapLower config)
       = map (ToLower mapLower) (Split (RequestHeaders config) '', '')
   \<and> Join (origins (prepare sprintf_f mapLower config)) '', '' = Origins config
   \<and> Join (methods (prepare sprintf_f mapLower config)) '', '' = Methods config
   \<and> Join (Split (RequestHeaders config) '', '') '', '' = RequestHeaders config
   \<and> (\<forall>t \<in> set (origins (prepare sprintf_f mapLower config))
              \<union> set (methods (prepare sprintf_f mapLower config))
              \<union> set (Split (RequestHeaders config) '', '').
        \<forall>a b. t \<noteq> a @ '', '' @ b)"
proof -
  have j: "\<And>s. Join (Split s '', '') '', '' = s"
    by (rule Join_Split) simp
  have f: "\<And>s. \<forall>t \<in> set (Split s '', ''). \<forall>a b. t \<noteq> a @ '', '' @ b"
    using Split_token_free [of "'', ''"] by blast
  show ?thesis
    using f by (simp add: prepare_fields j ball_Un)
qed

theorem prepare_splits_untrimmed_witness:
  "''https://b.com'' \<in> set (origins (prepare (renders ''0'') unmapped (config_a\<lparr>Origins := ''https://a.com, https://b.com''\<rparr>)))
   \<and> Join (origins (prepare (renders ''0'') unmapped (config_a\<lparr>Origins := ''https://a.com, https://b.com''\<rparr>))) '', ''
       = ''https://a.com, https://b.com''
   \<and> ''https://b.com'' \<noteq> ''https:'' @ '', '' @ ''b.com''"
proof -
  let ?cfg = "config_a\<lparr>Origins := ''https://a.com, https://b.com''\<rparr>"
  note T = prepare_splits_untrimmed
      [where sprintf_f = "renders ''0''" and mapLower = unmapped and config = ?cfg]
  have s: "Split ''https://a.com, https://b.com'' '', '' = [''https://a.com'', ''https://b.com'']"
    by code_simp
  have o: "Origins ?cfg = ''https://a.com, https://b.com''"
    by simp
  have m: "''https://b.com'' \<in> set (origins (prepare (renders ''0'') unmapped ?cfg))"
    by (simp add: prepare_fields s)
  from T have j: "Join (origins (prepare (renders ''0'') unmapped ?cfg)) '', '' = Origins ?cfg"
    by (elim conjE)
  from T have b: "\<forall>t \<in> set (origins (prepare (renders ''0'') unmapped ?cfg)) \<union> set (methods (prepare (renders ''0'') unmapped ?cfg))
              \<union> set (Split (RequestHeaders ?cfg) '', '').
        \<forall>a b. t \<noteq> a @ '', '' @ b"
    by (elim conjE)
  have m': "''https://b.com'' \<in> set (origins (prepare (renders ''0'') unmapped ?cfg)) \<union> set (methods (prepare (renders ''0'') unmapped ?cfg))
              \<union> set (Split (RequestHeaders ?cfg) '', '')"
    using m by (intro UnI1)
  have i: "\<forall>a b. ''https://b.com'' \<noteq> a @ '', '' @ b"
    by (rule bspec [OF b m'])
  have n: "''https://b.com'' \<noteq> ''https:'' @ '', '' @ ''b.com''"
    by (rule i [THEN spec, THEN spec])
  have j': "Join (origins (prepare (renders ''0'') unmapped ?cfg)) '', '' = ''https://a.com, https://b.com''"
    using j by (simp only: o)
  show ?thesis
    using m j' n by (intro conjI)
qed

text \<open>
  Claim C8 as stated says that every token is trimmed. With two blanks after the comma the
  second origin token keeps a leading blank.
\<close>

theorem tokens_trimmed_counterexample:
  "origins (prepare (renders ''0'') unmapped (config_a\<lparr>Origins := ''https://a.com,  https://b.com''\<rparr>))
     = [''https://a.com'', '' https://b.com'']
   \<and> Trim '' https://b.com'' '' '' \<noteq> '' https://b.com''"
proof -
  have s: "Split ''https://a.com,  https://b.com'' '', '' = [''https://a.com'', '' https://b.com'']"
    by code_simp
  have t: "Trim '' https://b.com'' '' '' = ''https://b.com''"
    by code_simp
  show ?thesis
    by (simp add: prepare_fields s t)
qed

section \<open>The handler that \<^verbatim>\<open>Cors\<close> returns\<close>

lemma Cors_Inr:
  "Cors sprintf_f mapLower config = Inr h \<Longrightarrow>
   Origins config \<noteq> [] \<and> h = handler mapLower (Origins config = ''*'') (prepare sprintf_f mapLower config)"
  by (auto simp add: Cors_def split: if_splits)

lemmas key_defs = AllowOriginKey_def AllowCredentialsKey_def AllowHeadersKey_def
  AllowMethodsKey_def MaxAgeKey_def OriginKey_def RequestMethodKey_def RequestHeadersKey_def
  ExposeHeadersKey_def

lemma key_neq:
  "''Vary'' \<noteq> AllowOriginKey"
  "''Vary'' \<noteq> AllowCredentialsKey"
  "''Vary'' \<noteq> AllowHeadersKey"
  "''Vary'' \<noteq> AllowMethodsKey"
  "''Vary'' \<noteq> MaxAgeKey"
  "''Vary'' \<noteq> ExposeHeadersKey"
  "AllowOriginKey \<noteq> ''Vary''"
  "AllowOriginKey \<noteq> AllowCredentialsKey"
  "AllowOriginKey \<noteq> AllowHeadersKey"
  "AllowOriginKey \<noteq> AllowMethodsKey"
  "AllowOriginKey \<noteq> MaxAgeKey"
  "AllowOriginKey \<noteq> ExposeHeadersKey"
  "AllowCredentialsKey \<noteq> ''Vary''"
  "AllowCredentialsKey \<noteq> AllowOriginKey"
  "AllowCredentialsKey \<noteq> AllowHeadersKey"
  "AllowCredentialsKey \<noteq> AllowMethodsKey"
  "AllowCredentialsKey \<noteq> MaxAgeKey"
  "AllowCredentialsKey \<noteq> ExposeHeadersKey"
  "AllowHeadersKey \<noteq> ''Vary''"
  "AllowHeadersKey \<noteq> AllowOriginKey"
  "AllowHeadersKey \<noteq> AllowCredentialsKey"
  "AllowHeadersKey \<noteq> AllowMethodsKey"
  "AllowHeadersKey \<noteq> MaxAgeKey"
  "AllowHeadersKey \<noteq> ExposeHeadersKey"
  "AllowMethodsKey \<noteq> ''Vary''"
  "AllowMethodsKey \<noteq> AllowOriginKey"
  "AllowMethodsKey \<noteq> AllowCredentialsKey"
  "AllowMethodsKey \<noteq> AllowHeadersKey"
  "AllowMethodsKey \<noteq> MaxAgeKey"
  "AllowMethodsKey \<noteq> ExposeHeadersKey"
  "MaxAgeKey \<noteq> ''Vary''"
  "MaxAgeKey \<noteq> AllowOriginKey"
  "MaxAgeKey \<noteq> AllowCredentialsKey"
  "MaxAgeKey \<noteq> AllowHeadersKey"
  "MaxAgeKey \<noteq> AllowMethodsKey"
  "MaxAgeKey \<noteq> ExposeHeadersKey"
  "ExposeHeadersKey \<noteq> ''Vary''"
  "ExposeHeadersKey \<noteq> AllowOriginKey"
  "ExposeHeadersKey \<noteq> AllowCredentialsKey"
  "ExposeHeadersKey \<noteq> AllowHeadersKey"
  "ExposeHeadersKey \<noteq> AllowMethodsKey"
  "ExposeHeadersKey \<noteq> MaxAgeKey"
  by (simp_all add: key_defs)

lemma handler_cases:
  obtains (no_origin) "currentOrigin c = []"
  | (denied) "currentOrigin c \<noteq> []" "\<not> f" "currentOrigin c \<notin> set (origins cfg)"
  | (preflight) "currentOrigin c \<noteq> []" "f \<or> currentOrigin c \<in> set (origins cfg)" "isPreflight c"
  | (actual) "currentOrigin c \<noteq> []" "f \<or> currentOrigin c \<in> set (origins cfg)" "\<not> isPreflight c"
  by blast

lemma Vary_after_Set:
  "key \<noteq> ''Vary'' \<Longrightarrow> Set h key v ''Vary'' = h ''Vary''"
  by (simp add: Set_def)

lemma Vary_after_Add:
  "Add h ''Vary'' v ''Vary'' = Some ((case h ''Vary'' of None \<Rightarrow> [] | Some vs \<Rightarrow> vs) @ [v])"
  by (simp add: Add_def split: option.splits)

lemma handlePreflight_Vary:
  "Resp (fst (handlePreflight mapLower c cfg rm)) ''Vary'' = Resp c ''Vary''"
  by (simp add: handlePreflight_Resp Let_def Vary_after_Set key_neq)

lemma handler_Vary:
  "Resp (handler mapLower f cfg c) ''Vary'' =
     Some ((case Resp c ''Vary'' of None \<Rightarrow> [] | Some vs \<Rightarrow> vs) @ [''Origin''])"
proof (cases rule: handler_cases [where c = c and f = f and cfg = cfg])
  case no_origin
  then show ?thesis by (simp add: handler_no_origin Vary_after_Add OriginKey_def)
next
  case denied
  then show ?thesis by (simp add: handler_denied Vary_after_Add OriginKey_def)
next
  case preflight
  then show ?thesis
    by (simp add: handler_preflight Break_def handlePreflight_Vary Vary_after_Add) (simp add: OriginKey_def)
next
  case actual
  then show ?thesis
    by (simp add: handler_actual Let_def Vary_after_Set Vary_after_Add key_neq OriginKey_def)
qed

lemma handler_actual_chain:
  "currentOrigin c \<noteq> [] \<Longrightarrow> f \<or> currentOrigin c \<in> set (origins cfg) \<Longrightarrow> \<not> isPreflight c \<Longrightarrow>
   chain (handler mapLower f cfg c) = Continued"
  by (simp add: handler_actual Let_def)

lemma handler_actual_AllowOrigin:
  "currentOrigin c \<noteq> [] \<Longrightarrow> f \<or> currentOrigin c \<in> set (origins cfg) \<Longrightarrow> \<not> isPreflight c \<Longrightarrow>
   Resp (handler mapLower f cfg c) AllowOriginKey =
     Some [if \<not> Credentials cfg \<and> f then ''*'' else currentOrigin c]"
  by (simp add: handler_actual Let_def Set_def)


lemma handler_actual_preflight_keys:
  "currentOrigin c \<noteq> [] \<Longrightarrow> f \<or> currentOrigin c \<in> set (origins cfg) \<Longrightarrow> \<not> isPreflight c \<Longrightarrow>
   Resp (handler mapLower f cfg c) AllowMethodsKey = Resp c AllowMethodsKey
   \<and> Resp (handler mapLower f cfg c) AllowHeadersKey = Resp c AllowHeadersKey
   \<and> Resp (handler mapLower f cfg c) MaxAgeKey = Resp c MaxAgeKey"
  by (simp add: handler_actual Let_def Set_def Add_def key_neq)

lemma handler_preflight_chain:
  "currentOrigin c \<noteq> [] \<Longrightarrow> f \<or> currentOrigin c \<in> set (origins cfg) \<Longrightarrow> isPreflight c \<Longrightarrow>
   chain (handler mapLower f cfg c) = Terminated"
  by (simp add: handler_preflight Break_def)

lemma handler_preflight_Resp:
  "currentOrigin c \<noteq> [] \<Longrightarrow> f \<or> currentOrigin c \<in> set (origins cfg) \<Longrightarrow> isPreflight c \<Longrightarrow>
   Resp (handler mapLower f cfg c) =
     (if validateRequestMethod (requestedMethod c) cfg \<and> validateRequestHeaders mapLower (requestedHeaders c) cfg
      then (let h2 = Set (Set (Add (Resp c) ''Vary'' OriginKey) AllowMethodsKey (Methods cfg))
                       AllowHeadersKey (RequestHeaders cfg)
            in if maxAge cfg \<noteq> ''0'' then Set h2 MaxAgeKey (maxAge cfg) else h2)
      else Add (Resp c) ''Vary'' OriginKey)"
  by (simp add: handler_preflight Break_def handlePreflight_Resp)

lemma handler_preflight_untouched:
  "currentOrigin c \<noteq> [] \<Longrightarrow> f \<or> currentOrigin c \<in> set (origins cfg) \<Longrightarrow> isPreflight c \<Longrightarrow>
   Resp (handler mapLower f cfg c) AllowOriginKey = Resp c AllowOriginKey
   \<and> Resp (handler mapLower f cfg c) AllowCredentialsKey = Resp c AllowCredentialsKey
   \<and> Resp (handler mapLower f cfg c) ExposeHeadersKey = Resp c ExposeHeadersKey"
  by (simp add: handler_preflight_Resp Let_def Set_def Add_def key_neq)

lemma admitted_prepared:
  "Origins config = ''*'' \<or> currentOrigin c \<in> set (Split (Origins config) '', '') \<Longrightarrow>
   (Origins config = ''*'') \<or> currentOrigin c \<in> set (origins (prepare sprintf_f mapLower config))"
  by (simp add: prepare_fields)

section \<open>Properties of the handler\<close>

text \<open>
  Claim C3. A request whose \<^verbatim>\<open>Origin\<close> header is absent or empty always continues
  down the chain, and its response is the one it came with plus \<^verbatim>\<open>Vary: Origin\<close>:
  no other header is set. For every request, whatever its outcome, \<^verbatim>\<open>Origin\<close> is
  appended to the values of \<^verbatim>\<open>Vary\<close>.
\<close>

theorem no_origin_continues:
  assumes "Cors sprintf_f mapLower config = Inr h"
  shows "(currentOrigin c = [] \<longrightarrow>
            h c = c\<lparr>Resp := Add (Resp c) ''Vary'' OriginKey, chain := Continued\<rparr>)
         \<and> Resp (h c) ''Vary'' =
             Some ((case Resp c ''Vary'' of None \<Rightarrow> [] | Some vs \<Rightarrow> vs) @ [''Origin''])"
  using Cors_Inr [OF assms] by (simp add: handler_no_origin handler_Vary)

theorem no_origin_continues_witness:
  "currentOrigin (request ''GET'' noHeaders) = []
   \<and> chain (handler unmapped False (prepare (renders ''0'') unmapped config_a) (request ''GET'' noHeaders)) = Continued
   \<and> Resp (handler unmapped False (prepare (renders ''0'') unmapped config_a) (request ''GET'' noHeaders))
       = Add (Resp (request ''GET'' noHeaders)) ''Vary'' OriginKey"
proof -
  have C: "Cors (renders ''0'') unmapped config_a = Inr (handler unmapped False (prepare (renders ''0'') unmapped config_a))"
    by (simp add: Cors_def config_a_def)
  have o: "currentOrigin (request ''GET'' noHeaders) = []"
    by (simp add: request_def noHeaders_def Get_def)
  show ?thesis
    using no_origin_continues [OF C, of "request ''GET'' noHeaders"] o by simp
qed

text \<open>
  Claim C1, as amended. For a request with a non-empty \<^verbatim>\<open>Origin\<close>: under a policy
  that is not the wildcard, an \<^verbatim>\<open>Origin\<close> that is not equal, byte for byte, to a
  configured origin token is rejected (the chain is stopped and only \<^verbatim>\<open>Vary: Origin\<close>
  is added); a request that is not a preflight is rejected exactly in that case; a
  preflight from a configured origin is answered by \<^verbatim>\<open>handlePreflight\<close>, which stops
  the chain too. Under the wildcard policy every origin is admitted: a request that is not
  a preflight continues, a preflight is answered by \<^verbatim>\<open>handlePreflight\<close>.
\<close>

theorem origin_admission:
  assumes "Cors sprintf_f mapLower config = Inr h"
    and "currentOrigin c \<noteq> []"
  shows "(Origins config \<noteq> ''*'' \<and> currentOrigin c \<notin> set (Split (Origins config) '', '') \<longrightarrow>
            rejected c (h c))
    \<and> (Origins config \<noteq> ''*'' \<and> \<not> isPreflight c \<longrightarrow>
          (rejected c (h c) \<longleftrightarrow> currentOrigin c \<notin> set (Split (Origins config) '', '')))
    \<and> (Origins config \<noteq> ''*'' \<and> currentOrigin c \<in> set (Split (Origins config) '', '')
          \<and> isPreflight c \<longrightarrow>
          h c = Break (fst (handlePreflight mapLower (c\<lparr>Resp := Add (Resp c) ''Vary'' OriginKey\<rparr>)
                              (prepare sprintf_f mapLower config) (requestedMethod c))))
    \<and> (Origins config = ''*'' \<and> \<not> isPreflight c \<longrightarrow> chain (h c) = Continued)
    \<and> (Origins config = ''*'' \<and> isPreflight c \<longrightarrow>
          h c = Break (fst (handlePreflight mapLower (c\<lparr>Resp := Add (Resp c) ''Vary'' OriginKey\<rparr>)
                              (prepare sprintf_f mapLower config) (requestedMethod c))))"
proof -
  let ?cfg = "prepare sprintf_f mapLower config"
  let ?in = "currentOrigin c \<in> set (Split (Origins config) '', '')"
  have h: "h = handler mapLower (Origins config = ''*'') ?cfg"
    using Cors_Inr [OF assms(1)] by simp
  have D: "rejected c (h c)" if "Origins config \<noteq> ''*''" "\<not> ?in"
    unfolding h using handler_denied [OF assms(2), of "Origins config = ''*''" ?cfg] that
    by (simp add: prepare_fields)
  have A: "chain (h c) = Continued" if "Origins config = ''*'' \<or> ?in" "\<not> isPreflight c"
    unfolding h
    using handler_actual_chain [OF assms(2) admitted_prepared [OF that(1), where sprintf_f = sprintf_f and mapLower = mapLower] that(2)] .
  have P: "h c = Break (fst (handlePreflight mapLower (c\<lparr>Resp := Add (Resp c) ''Vary'' OriginKey\<rparr>)
                              ?cfg (requestedMethod c)))"
    if "Origins config = ''*'' \<or> ?in" "isPreflight c"
    unfolding h
    using handler_preflight [OF assms(2) admitted_prepared [OF that(1), where sprintf_f = sprintf_f and mapLower = mapLower]] that(2)
    by simp
  have I: "rejected c (h c) \<longleftrightarrow> \<not> ?in" if "Origins config \<noteq> ''*''" "\<not> isPreflight c"
  proof (cases ?in)
    case True
    then have "chain (h c) = Continued" using A that(2) by simp
    then show ?thesis using True by simp
  next
    case False
    then show ?thesis using D that(1) by simp
  qed
  show ?thesis
  proof (intro conjI impI)
    show "h c = Break (fst (handlePreflight mapLower (c\<lparr>Resp := Add (Resp c) ''Vary'' OriginKey\<rparr>)
                              ?cfg (requestedMethod c)))"
      if "Origins config \<noteq> ''*'' \<and> ?in \<and> isPreflight c"
      using P that by simp
    show "h c = Break (fst (handlePreflight mapLower (c\<lparr>Resp := Add (Resp c) ''Vary'' OriginKey\<rparr>)
                              ?cfg (requestedMethod c)))"
      if "Origins config = ''*'' \<and> isPreflight c"
      using P that by simp
  qed (use D A I in simp_all)
qed

theorem origin_admission_witness:
  "rejected (request ''GET'' (noHeaders(''Origin'' \<mapsto> [''https://b.com''])))
     (handler unmapped False (prepare (renders ''0'') unmapped config_a)
        (request ''GET'' (noHeaders(''Origin'' \<mapsto> [''https://b.com'']))))
   \<and> \<not> rejected (request ''GET'' (noHeaders(''Origin'' \<mapsto> [''https://a.com''])))
     (handler unmapped False (prepare (renders ''0'') unmapped config_a)
        (request ''GET'' (noHeaders(''Origin'' \<mapsto> [''https://a.com'']))))
   \<and> chain (handler unmapped True (prepare (renders ''60'') unmapped config_star)
        (request ''GET'' (noHeaders(''Origin'' \<mapsto> [''https://b.com''])))) = Continued"
proof -
  let ?a = "request ''GET'' (noHeaders(''Origin'' \<mapsto> [''https://a.com'']))"
  let ?b = "request ''GET'' (noHeaders(''Origin'' \<mapsto> [''https://b.com'']))"
  have oa: "currentOrigin ?a \<noteq> []" and ob: "currentOrigin ?b \<noteq> []"
    by (simp_all add: eval_get_a eval_get_b)
  have na: "Origins config_a \<noteq> ''*'' \<and> \<not> isPreflight ?a"
    by (simp add: eval_config_a eval_get_a)
  have ia: "currentOrigin ?a \<in> set (Split (Origins config_a) '', '')"
    by (simp add: eval_config_a eval_get_a Split_origin_a)
  have nb: "Origins config_a \<noteq> ''*'' \<and> currentOrigin ?b \<notin> set (Split (Origins config_a) '', '')"
    by (simp add: eval_config_a eval_get_b Split_origin_a)
  have sb: "Origins config_star = ''*'' \<and> \<not> isPreflight ?b"
    by (simp add: eval_config_star eval_get_b)
  note A = origin_admission [OF Cors_config_a oa]
  note B = origin_admission [OF Cors_config_a ob]
  note S = origin_admission [OF Cors_config_star ob]
  have r1: "rejected ?b (handler unmapped False (prepare (renders ''0'') unmapped config_a) ?b)"
    by (rule B [THEN conjunct1, THEN mp, OF nb])
  have r2: "rejected ?a (handler unmapped False (prepare (renders ''0'') unmapped config_a) ?a)
              \<longleftrightarrow> currentOrigin ?a \<notin> set (Split (Origins config_a) '', '')"
    by (rule A [THEN conjunct2, THEN conjunct1, THEN mp, OF na])
  have r3: "chain (handler unmapped True (prepare (renders ''60'') unmapped config_star) ?b) = Continued"
    by (rule S [THEN conjunct2, THEN conjunct2, THEN conjunct2, THEN conjunct1, THEN mp, OF sb])
  have r2': "\<not> rejected ?a (handler unmapped False (prepare (renders ''0'') unmapped config_a) ?a)"
    using r2 ia by blast
  show ?thesis
    by (rule conjI [OF r1 conjI [OF r2' r3]])
qed

text \<open>
  Claim C1 as stated makes the rejection equivalent to an unmatched origin for every
  request. A preflight from the configured origin that probes a method outside the
  configured ones, in strict mode, is rejected in the same way: the chain is stopped and
  only \<^verbatim>\<open>Vary: Origin\<close> is added, although the origin is a configured token.
\<close>

theorem rejected_iff_unmatched_counterexample:
  "Cors (renders ''0'') unmapped config_a = Inr (handler unmapped False (prepare (renders ''0'') unmapped config_a))
   \<and> Origins config_a \<noteq> ''*''
   \<and> currentOrigin (request ''OPTIONS'' (noHeaders(''Origin'' \<mapsto> [''https://a.com''],
         ''Access-Control-Request-Method'' \<mapsto> [''DELETE'']))) \<noteq> []
   \<and> currentOrigin (request ''OPTIONS'' (noHeaders(''Origin'' \<mapsto> [''https://a.com''],
         ''Access-Control-Request-Method'' \<mapsto> [''DELETE''])))
       \<in> set (Split (Origins config_a) '', '')
   \<and> rejected (request ''OPTIONS'' (noHeaders(''Origin'' \<mapsto> [''https://a.com''],
         ''Access-Control-Request-Method'' \<mapsto> [''DELETE''])))
       (handler unmapped False (prepare (renders ''0'') unmapped config_a)
         (request ''OPTIONS'' (noHeaders(''Origin'' \<mapsto> [''https://a.com''],
            ''Access-Control-Request-Method'' \<mapsto> [''DELETE'']))))"
proof -
  let ?c = "request ''OPTIONS'' (noHeaders(''Origin'' \<mapsto> [''https://a.com''],
             ''Access-Control-Request-Method'' \<mapsto> [''DELETE'']))"
  let ?cfg = "prepare (renders ''0'') unmapped config_a"
  have o: "currentOrigin ?c \<noteq> []"
    by (simp add: eval_options_delete)
  have n: "Origins config_a \<noteq> ''*''"
    by (simp add: eval_config_a)
  have i: "currentOrigin ?c \<in> set (Split (Origins config_a) '', '')"
    by (simp add: eval_options_delete eval_config_a Split_origin_a)
  have a: "False \<or> currentOrigin ?c \<in> set (origins ?cfg)"
    using i by (simp add: prepare_fields)
  have p: "isPreflight ?c"
    by (simp add: eval_options_delete eval_request(1) optionsMethod_def)
  have v: "\<not> validateRequestMethod (requestedMethod ?c) ?cfg"
    by (simp add: eval_options_delete eval_prepare_a)
  have r1: "chain (handler unmapped False ?cfg ?c) = Terminated"
    by (rule handler_preflight_chain [OF o a p])
  have r2: "Resp (handler unmapped False ?cfg ?c) = Add (Resp ?c) ''Vary'' OriginKey"
    using handler_preflight_Resp [OF o a p] v by simp
  show ?thesis
    using Cors_config_a n o i r1 r2 by (intro conjI)
qed

text \<open>
  Claim C7. An admitted request is handled as a preflight exactly when its method is
  \<^verbatim>\<open>OPTIONS\<close> and its \<^verbatim>\<open>Access-Control-Request-Method\<close> is not empty: then the
  result is that of \<^verbatim>\<open>handlePreflight\<close> with the chain stopped. Every other admitted
  request, an \<^verbatim>\<open>OPTIONS\<close> request without a probed method included, is handled as an
  actual request: it continues, with \<^verbatim>\<open>Access-Control-Allow-Origin\<close> set and none of
  the preflight headers touched.
\<close>

theorem preflight_classification:
  assumes "Cors sprintf_f mapLower config = Inr h"
    and "currentOrigin c \<noteq> []"
    and "Origins config = ''*'' \<or> currentOrigin c \<in> set (Split (Origins config) '', '')"
  shows "(isPreflight c \<longrightarrow>
            h c = Break (fst (handlePreflight mapLower (c\<lparr>Resp := Add (Resp c) ''Vary'' OriginKey\<rparr>)
                                (prepare sprintf_f mapLower config) (requestedMethod c))))
    \<and> (\<not> isPreflight c \<longrightarrow>
          chain (h c) = Continued
          \<and> Resp (h c) AllowOriginKey =
              Some [if \<not> Credentials config \<and> Origins config = ''*'' then ''*'' else currentOrigin c]
          \<and> Resp (h c) AllowMethodsKey = Resp c AllowMethodsKey
          \<and> Resp (h c) AllowHeadersKey = Resp c AllowHeadersKey
          \<and> Resp (h c) MaxAgeKey = Resp c MaxAgeKey)
    \<and> (chain (h c) = Terminated \<longleftrightarrow> isPreflight c)"
proof -
  let ?cfg = "prepare sprintf_f mapLower config"
  have h: "h = handler mapLower (Origins config = ''*'') ?cfg"
    using Cors_Inr [OF assms(1)] by simp
  note adm = admitted_prepared [OF assms(3), where sprintf_f = sprintf_f and mapLower = mapLower]
  have A: "h c = Break (fst (handlePreflight mapLower (c\<lparr>Resp := Add (Resp c) ''Vary'' OriginKey\<rparr>)
                                (prepare sprintf_f mapLower config) (requestedMethod c)))"
    if "isPreflight c"
    unfolding h using handler_preflight [OF assms(2) adm] that by simp
  have A': "chain (h c) = Terminated" if "isPreflight c"
    unfolding h using handler_preflight_chain [OF assms(2) adm that] .
  have B1: "chain (h c) = Continued" if "\<not> isPreflight c"
    unfolding h using handler_actual_chain [OF assms(2) adm that] .
  have B2: "Resp (h c) AllowOriginKey =
              Some [if \<not> Credentials config \<and> Origins config = ''*'' then ''*'' else currentOrigin c]"
    if "\<not> isPreflight c"
    unfolding h using handler_actual_AllowOrigin [OF assms(2) adm that]
    by (simp add: prepare_fields)
  have B3: "Resp (h c) AllowMethodsKey = Resp c AllowMethodsKey
          \<and> Resp (h c) AllowHeadersKey = Resp c AllowHeadersKey
          \<and> Resp (h c) MaxAgeKey = Resp c MaxAgeKey"
    if "\<not> isPreflight c"
    unfolding h using handler_actual_preflight_keys [OF assms(2) adm that] .
  have C: "chain (h c) = Terminated \<longleftrightarrow> isPreflight c"
  proof (cases "isPreflight c")
    case True
    then show ?thesis using A' by simp
  next
    case False
    then show ?thesis using B1 by simp
  qed
  show ?thesis
  proof (intro conjI impI)
    show "h c = Break (fst (handlePreflight mapLower (c\<lparr>Resp := Add (Resp c) ''Vary'' OriginKey\<rparr>)
                                (prepare sprintf_f mapLower config) (requestedMethod c)))"
      if "isPreflight c" using A that .
  qed (use B1 B2 B3 C in simp_all)
qed

theorem preflight_classification_witness:
  "chain (handler unmapped False (prepare (renders ''0'') unmapped config_a)
          (request ''OPTIONS'' (noHeaders(''Origin'' \<mapsto> [''https://a.com''],
             ''Access-Control-Request-Method'' \<mapsto> [''POST''])))) = Terminated
   \<and> chain (handler unmapped False (prepare (renders ''0'') unmapped config_a)
          (request ''OPTIONS'' (noHeaders(''Origin'' \<mapsto> [''https://a.com''])))) = Continued
   \<and> Resp (handler unmapped False (prepare (renders ''0'') unmapped config_a)
          (request ''OPTIONS'' (noHeaders(''Origin'' \<mapsto> [''https://a.com''])))) AllowOriginKey
       = Some [''https://a.com'']"
proof -
  let ?p = "request ''OPTIONS'' (noHeaders(''Origin'' \<mapsto> [''https://a.com''],
             ''Access-Control-Request-Method'' \<mapsto> [''POST'']))"
  let ?b = "request ''OPTIONS'' (noHeaders(''Origin'' \<mapsto> [''https://a.com'']))"
  have op: "currentOrigin ?p \<noteq> []" and ob: "currentOrigin ?b \<noteq> []"
    by (simp_all add: eval_options_post eval_options_bare)
  have ap: "Origins config_a = ''*'' \<or> currentOrigin ?p \<in> set (Split (Origins config_a) '', '')"
    by (simp add: eval_options_post eval_config_a Split_origin_a)
  have ab: "Origins config_a = ''*'' \<or> currentOrigin ?b \<in> set (Split (Origins config_a) '', '')"
    by (simp add: eval_options_bare eval_config_a Split_origin_a)
  have pp: "isPreflight ?p"
    by (simp add: eval_options_post eval_request(1) optionsMethod_def)
  have pb: "\<not> isPreflight ?b"
    by (simp add: eval_options_bare)
  show ?thesis
    using preflight_classification [OF Cors_config_a op ap, THEN conjunct2, THEN conjunct2]
      preflight_classification [OF Cors_config_a ob ab, THEN conjunct2, THEN conjunct1] pp pb
    by (simp add: eval_config_a eval_options_bare)
qed

text \<open>
  Claim C2. An admitted preflight always stops the chain. When the probed method and the
  probed headers both pass validation, the response is the incoming one with
  \<^verbatim>\<open>Vary: Origin\<close> added and exactly \<^verbatim>\<open>Access-Control-Allow-Methods\<close> (the whole
  \<^verbatim>\<open>Methods\<close> string), \<^verbatim>\<open>Access-Control-Allow-Headers\<close> (the whole
  \<^verbatim>\<open>RequestHeaders\<close> string as configured) and, only when the prepared maximal age is
  not \<^verbatim>\<open>"0"\<close>, \<^verbatim>\<open>Access-Control-Max-Age\<close> set; when validation fails, only
  \<^verbatim>\<open>Vary: Origin\<close> is added. In both cases \<^verbatim>\<open>Access-Control-Allow-Origin\<close> and
  \<^verbatim>\<open>Access-Control-Allow-Credentials\<close> are left as they were.
\<close>

theorem preflight_terminates_chain:
  assumes "Cors sprintf_f mapLower config = Inr h"
    and "currentOrigin c \<noteq> []"
    and "Origins config = ''*'' \<or> currentOrigin c \<in> set (Split (Origins config) '', '')"
    and "isPreflight c"
  shows "chain (h c) = Terminated
    \<and> (validateRequestMethod (requestedMethod c) (prepare sprintf_f mapLower config)
        \<and> validateRequestHeaders mapLower (requestedHeaders c) (prepare sprintf_f mapLower config) \<longrightarrow>
          Resp (h c) =
            (if maxAge (prepare sprintf_f mapLower config) \<noteq> ''0''
             then Set (Set (Set (Add (Resp c) ''Vary'' OriginKey) AllowMethodsKey (Methods config))
                         AllowHeadersKey (RequestHeaders config))
                    MaxAgeKey (maxAge (prepare sprintf_f mapLower config))
             else Set (Set (Add (Resp c) ''Vary'' OriginKey) AllowMethodsKey (Methods config))
                    AllowHeadersKey (RequestHeaders config)))
    \<and> (\<not> (validateRequestMethod (requestedMethod c) (prepare sprintf_f mapLower config)
           \<and> validateRequestHeaders mapLower (requestedHeaders c) (prepare sprintf_f mapLower config)) \<longrightarrow>
          Resp (h c) = Add (Resp c) ''Vary'' OriginKey)
    \<and> Resp (h c) AllowOriginKey = Resp c AllowOriginKey
    \<and> Resp (h c) AllowCredentialsKey = Resp c AllowCredentialsKey"
proof -
  let ?cfg = "prepare sprintf_f mapLower config"
  have h: "h = handler mapLower (Origins config = ''*'') ?cfg"
    using Cors_Inr [OF assms(1)] by simp
  note adm = admitted_prepared [OF assms(3), where sprintf_f = sprintf_f and mapLower = mapLower]
  show ?thesis
    unfolding h
    using handler_preflight_chain [OF assms(2) adm assms(4)]
      handler_preflight_Resp [OF assms(2) adm assms(4)]
      handler_preflight_untouched [OF assms(2) adm assms(4)]
    by (simp add: Let_def prepare_fields)
qed

theorem preflight_terminates_chain_witness:
  "chain (handler unmapped False (prepare (renders ''0'') unmapped config_a)
          (request ''OPTIONS'' (noHeaders(''Origin'' \<mapsto> [''https://a.com''],
             ''Access-Control-Request-Method'' \<mapsto> [''DELETE''])))) = Terminated
   \<and> Resp (handler unmapped False (prepare (renders ''0'') unmapped config_a)
          (request ''OPTIONS'' (noHeaders(''Origin'' \<mapsto> [''https://a.com''],
             ''Access-Control-Request-Method'' \<mapsto> [''DELETE'']))))
       = Add (Resp (request ''OPTIONS'' (noHeaders(''Origin'' \<mapsto> [''https://a.com''],
             ''Access-Control-Request-Method'' \<mapsto> [''DELETE''])))) ''Vary'' OriginKey
   \<and> Resp (handler unmapped True (prepare (renders ''60'') unmapped config_star)
          (request ''OPTIONS'' (noHeaders(''Origin'' \<mapsto> [''https://a.com''],
             ''Access-Control-Request-Method'' \<mapsto> [''DELETE'']))))
       = Set (Set (Set (Add (Resp (request ''OPTIONS'' (noHeaders(''Origin'' \<mapsto> [''https://a.com''],
             ''Access-Control-Request-Method'' \<mapsto> [''DELETE''])))) ''Vary'' OriginKey)
           AllowMethodsKey ''GET, PUT, POST, DELETE'')
           AllowHeadersKey ''Origin, Authorization, Content-Type'')
           MaxAgeKey ''60''"
proof -
  let ?c = "request ''OPTIONS'' (noHeaders(''Origin'' \<mapsto> [''https://a.com''],
             ''Access-Control-Request-Method'' \<mapsto> [''DELETE'']))"
  have o: "currentOrigin ?c \<noteq> []"
    by (simp add: eval_options_delete)
  have a: "Origins config_a = ''*'' \<or> currentOrigin ?c \<in> set (Split (Origins config_a) '', '')"
    by (simp add: eval_options_delete eval_config_a Split_origin_a)
  have s: "Origins config_star = ''*'' \<or> currentOrigin ?c \<in> set (Split (Origins config_star) '', '')"
    by (simp add: eval_config_star)
  have p: "isPreflight ?c"
    by (simp add: eval_options_delete eval_request(1) optionsMethod_def)
  have v: "validateRequestMethod (requestedMethod ?c) (prepare (renders ''60'') unmapped config_star)
           \<and> validateRequestHeaders unmapped (requestedHeaders ?c) (prepare (renders ''60'') unmapped config_star)"
    by (simp add: validateRequestMethod_def validateRequestHeaders_def prepare_fields eval_config_star)
  have n: "\<not> (validateRequestMethod (requestedMethod ?c) (prepare (renders ''0'') unmapped config_a)
           \<and> validateRequestHeaders unmapped (requestedHeaders ?c) (prepare (renders ''0'') unmapped config_a))"
    by (simp add: eval_options_delete eval_prepare_a)
  note A = preflight_terminates_chain [OF Cors_config_a o a p]
  note S = preflight_terminates_chain [OF Cors_config_star o s p]
  have r1: "chain (handler unmapped False (prepare (renders ''0'') unmapped config_a) ?c) = Terminated"
    by (rule A [THEN conjunct1])
  have r2: "Resp (handler unmapped False (prepare (renders ''0'') unmapped config_a) ?c) = Add (Resp ?c) ''Vary'' OriginKey"
    by (rule A [THEN conjunct2, THEN conjunct2, THEN conjunct1, THEN mp, OF n])
  have r3: "Resp (handler unmapped True (prepare (renders ''60'') unmapped config_star) ?c) =
            (if maxAge (prepare (renders ''60'') unmapped config_star) \<noteq> ''0''
             then Set (Set (Set (Add (Resp ?c) ''Vary'' OriginKey) AllowMethodsKey (Methods config_star))
                         AllowHeadersKey (RequestHeaders config_star))
                    MaxAgeKey (maxAge (prepare (renders ''60'') unmapped config_star))
             else Set (Set (Add (Resp ?c) ''Vary'' OriginKey) AllowMethodsKey (Methods config_star))
                    AllowHeadersKey (RequestHeaders config_star))"
    by (rule S [THEN conjunct2, THEN conjunct1, THEN mp, OF v])
  have r4: "Resp (handler unmapped True (prepare (renders ''60'') unmapped config_star) ?c) =
      Set (Set (Set (Add (Resp ?c) ''Vary'' OriginKey)
           AllowMethodsKey ''GET, PUT, POST, DELETE'')
           AllowHeadersKey ''Origin, Authorization, Content-Type'')
           MaxAgeKey ''60''"
    unfolding r3 by (simp add: prepare_fields(4) renders_def eval_config_star)
  show ?thesis
    using r1 r2 r4 by (intro conjI)
qed

text \<open>
  Claim C10. In strict mode, an absent or empty \<^verbatim>\<open>Access-Control-Request-Headers\<close>
  splits into the single empty piece, so the header validation passes exactly when the
  prepared request headers hold an empty token. They hold one whenever splitting the
  configured \<^verbatim>\<open>RequestHeaders\<close> on \<^verbatim>\<open>", "\<close> gives an empty piece (as the empty
  configuration string does), and only then, since lowercasing gives the empty string for
  the empty string alone (Go's Unicode mapping of a string that is not empty is not
  empty). When they hold none, an admitted preflight without probed headers gets no allow
  header: the response only gains \<^verbatim>\<open>Vary: Origin\<close> and the chain is stopped.
\<close>

theorem empty_request_headers_strict:
  assumes "Cors sprintf_f mapLower config = Inr h"
    and "ValidateHeaders config"
  shows "Split [] '','' = [[]]
    \<and> (validateRequestHeaders mapLower [] (prepare sprintf_f mapLower config) \<longleftrightarrow>
          [] \<in> set (requestHeaders (prepare sprintf_f mapLower config)))
    \<and> ([] \<in> set (Split (RequestHeaders config) '', '') \<longrightarrow>
          [] \<in> set (requestHeaders (prepare sprintf_f mapLower config)))
    \<and> ((\<forall>s. mapLower s = [] \<longrightarrow> s = []) \<longrightarrow>
          ([] \<in> set (requestHeaders (prepare sprintf_f mapLower config)) \<longleftrightarrow>
           [] \<in> set (Split (RequestHeaders config) '', '')))
    \<and> (RequestHeaders config = [] \<longrightarrow>
          validateRequestHeaders mapLower [] (prepare sprintf_f mapLower config))
    \<and> (currentOrigin c \<noteq> []
        \<and> (Origins config = ''*'' \<or> currentOrigin c \<in> set (Split (Origins config) '', ''))
        \<and> isPreflight c \<and> requestedHeaders c = []
        \<and> [] \<notin> set (requestHeaders (prepare sprintf_f mapLower config)) \<longrightarrow>
          h c = c\<lparr>Resp := Add (Resp c) ''Vary'' OriginKey, chain := Terminated\<rparr>)"
proof -
  let ?cfg = "prepare sprintf_f mapLower config"
  have h: "h = handler mapLower (Origins config = ''*'') ?cfg"
    using Cors_Inr [OF assms(1)] by simp
  have V: "validateRequestHeaders mapLower [] ?cfg \<longleftrightarrow> [] \<in> set (requestHeaders ?cfg)"
    using assms(2)
    by (simp add: validateRequestHeaders_def validateRequestHeaders_loop_all prepare_fields(6)
        Trim_def ToLower_Nil)
  have L1: "[] \<in> set (requestHeaders ?cfg)" if "[] \<in> set (Split (RequestHeaders config) '', '')"
  proof -
    have "ToLower mapLower [] \<in> ToLower mapLower ` set (Split (RequestHeaders config) '', '')"
      using that by (rule imageI)
    then show ?thesis by (simp add: prepare_fields(3) ToLower_Nil)
  qed
  have N: "t = []" if "ToLower mapLower t = []" and "\<forall>s. mapLower s = [] \<longrightarrow> s = []" for t
    using that by (cases "isASCII t") (simp_all add: ToLower_def)
  have L2: "[] \<in> set (requestHeaders ?cfg) \<longleftrightarrow> [] \<in> set (Split (RequestHeaders config) '', '')"
    if m: "\<forall>s. mapLower s = [] \<longrightarrow> s = []"
  proof
    assume "[] \<in> set (requestHeaders ?cfg)"
    then obtain t where t: "t \<in> set (Split (RequestHeaders config) '', '')"
      and e: "ToLower mapLower t = []"
      by (auto simp add: prepare_fields(3))
    from N [OF e m] t show "[] \<in> set (Split (RequestHeaders config) '', '')" by simp
  next
    assume "[] \<in> set (Split (RequestHeaders config) '', '')"
    then show "[] \<in> set (requestHeaders ?cfg)" by (rule L1)
  qed
  have E: "validateRequestHeaders mapLower [] ?cfg" if "RequestHeaders config = []"
    using V L1 that by simp
  have R: "h c = c\<lparr>Resp := Add (Resp c) ''Vary'' OriginKey, chain := Terminated\<rparr>"
    if o: "currentOrigin c \<noteq> []"
      and a: "Origins config = ''*'' \<or> currentOrigin c \<in> set (Split (Origins config) '', '')"
      and p: "isPreflight c" and e: "requestedHeaders c = []"
      and n: "[] \<notin> set (requestHeaders ?cfg)"
  proof -
    have nv: "\<not> validateRequestHeaders mapLower (requestedHeaders c) ?cfg"
      using V n e by simp
    have "handler mapLower (Origins config = ''*'') ?cfg c =
        Break (fst (handlePreflight mapLower (c\<lparr>Resp := Add (Resp c) ''Vary'' OriginKey\<rparr>) ?cfg
                      (requestedMethod c)))"
      using handler_preflight
        [OF o admitted_prepared [OF a, where sprintf_f = sprintf_f and mapLower = mapLower]] p
      by simp
    also have "\<dots> = c\<lparr>Resp := Add (Resp c) ''Vary'' OriginKey, chain := Terminated\<rparr>"
      using nv by (simp add: handlePreflight_def Break_def)
    finally show ?thesis unfolding h .
  qed
  show ?thesis
  proof (intro conjI impI)
    show "h c = c\<lparr>Resp := Add (Resp c) ''Vary'' OriginKey, chain := Terminated\<rparr>"
      if "currentOrigin c \<noteq> []
        \<and> (Origins config = ''*'' \<or> currentOrigin c \<in> set (Split (Origins config) '', ''))
        \<and> isPreflight c \<and> requestedHeaders c = []
        \<and> [] \<notin> set (requestHeaders (prepare sprintf_f mapLower config))"
      using R that by blast
    show "[] \<in> set (requestHeaders ?cfg) \<longleftrightarrow> [] \<in> set (Split (RequestHeaders config) '', '')"
      if "\<forall>s. mapLower s = [] \<longrightarrow> s = []"
      using L2 that by simp
  qed (use V L1 E in simp_all)
qed

theorem empty_request_headers_strict_witness:
  "handler unmapped False (prepare (renders ''0'') unmapped config_a)
     (request ''OPTIONS'' (noHeaders(''Origin'' \<mapsto> [''https://a.com''],
        ''Access-Control-Request-Method'' \<mapsto> [''POST''])))
   = (request ''OPTIONS'' (noHeaders(''Origin'' \<mapsto> [''https://a.com''],
        ''Access-Control-Request-Method'' \<mapsto> [''POST''])))
       \<lparr>Resp := Add (Resp (request ''OPTIONS'' (noHeaders(''Origin'' \<mapsto> [''https://a.com''],
        ''Access-Control-Request-Method'' \<mapsto> [''POST''])))) ''Vary'' OriginKey,
        chain := Terminated\<rparr>
   \<and> \<not> validateRequestHeaders unmapped [] (prepare (renders ''0'') unmapped config_a)
   \<and> validateRequestHeaders unmapped [] (prepare (renders ''0'') unmapped (config_a\<lparr>RequestHeaders := []\<rparr>))
   \<and> [] \<in> set (requestHeaders (prepare (renders ''0'') unmapped (config_a\<lparr>RequestHeaders := []\<rparr>)))
   \<and> [] \<notin> set (Split (RequestHeaders config_a) '', '')"
proof -
  let ?c = "request ''OPTIONS'' (noHeaders(''Origin'' \<mapsto> [''https://a.com''],
             ''Access-Control-Request-Method'' \<mapsto> [''POST'']))"
  let ?e = "config_a\<lparr>RequestHeaders := []\<rparr>"
  have v: "ValidateHeaders config_a" and ve: "ValidateHeaders ?e"
    by (simp_all add: eval_config_a)
  have Ce: "Cors (renders ''0'') unmapped ?e = Inr (handler unmapped False (prepare (renders ''0'') unmapped ?e))"
    by (simp add: Cors_def eval_config_a)
  have n: "[] \<notin> set (requestHeaders (prepare (renders ''0'') unmapped config_a))"
    by (simp add: prepare_fields eval_config_a Split_headers_a ToLower_content_type)
  have hyp: "currentOrigin ?c \<noteq> []
        \<and> (Origins config_a = ''*'' \<or> currentOrigin ?c \<in> set (Split (Origins config_a) '', ''))
        \<and> isPreflight ?c \<and> requestedHeaders ?c = []
        \<and> [] \<notin> set (requestHeaders (prepare (renders ''0'') unmapped config_a))"
    using n by (simp add: eval_options_post eval_request(1) optionsMethod_def eval_config_a Split_origin_a)
  have re: "RequestHeaders ?e = []"
    by simp
  have se: "[] \<in> set (Split (RequestHeaders ?e) '', '')"
    by simp
  have u: "\<forall>s. unmapped s = [] \<longrightarrow> s = []"
    by (simp add: unmapped_def)
  note A = empty_request_headers_strict [OF Cors_config_a v, of ?c]
  note E = empty_request_headers_strict [OF Ce ve, of ?c]
  have r1: "handler unmapped False (prepare (renders ''0'') unmapped config_a) ?c
              = ?c\<lparr>Resp := Add (Resp ?c) ''Vary'' OriginKey, chain := Terminated\<rparr>"
    by (rule A [THEN conjunct2, THEN conjunct2, THEN conjunct2, THEN conjunct2, THEN conjunct2,
          THEN mp, OF hyp])
  have r2: "\<not> validateRequestHeaders unmapped [] (prepare (renders ''0'') unmapped config_a)"
    using A [THEN conjunct2, THEN conjunct1] n by simp
  have r3: "validateRequestHeaders unmapped [] (prepare (renders ''0'') unmapped ?e)"
    by (rule E [THEN conjunct2, THEN conjunct2, THEN conjunct2, THEN conjunct2, THEN conjunct1,
          THEN mp, OF re])
  have r4: "[] \<in> set (requestHeaders (prepare (renders ''0'') unmapped ?e))"
    by (rule E [THEN conjunct2, THEN conjunct2, THEN conjunct1, THEN mp, OF se])
  have r5: "[] \<in> set (requestHeaders (prepare (renders ''0'') unmapped config_a))
              \<longleftrightarrow> [] \<in> set (Split (RequestHeaders config_a) '', '')"
    by (rule A [THEN conjunct2, THEN conjunct2, THEN conjunct2, THEN conjunct1, THEN mp, OF u])
  have r6: "[] \<notin> set (Split (RequestHeaders config_a) '', '')"
    using r5 n by simp
  show ?thesis
    using r1 r2 r3 r4 r6 by (intro conjI)
qed




end
